theory Spec2Isabelle
  imports Main "HOL-Library.Word"
begin

unbundle bit_operations_syntax

section \<open>Values of the Go program\<close>

text \<open>
  Package \<open>fd\<close> (fd.go) has two functions, \<open>Get\<close> and \<open>Put\<close>. Both are glue around
  calls into the packages \<open>net\<close>, \<open>os\<close> and \<open>syscall\<close>. The embedding keeps every line of
  the two functions and takes the functions they call as the fields of an environment
  record, so that each theorem holds for whatever those calls answer.

  Go's \<open>int\<close> and \<open>uintptr\<close> are 64-bit machine words on a 64-bit target; \<open>int\<close> is read
  as two's complement (\<open><s\<close>, \<open>sint\<close>), and the conversions \<open>int(x)\<close> and \<open>uintptr(x)\<close> between
  the two keep the bits.
\<close>

type_synonym byte = "8 word"
type_synonym goint = "64 word"
type_synonym uintptr = "64 word"

text \<open>A Go \<open>error\<close> value: an errno of package syscall, or an error of another package.\<close>

datatype error = Errno nat | OpError string

definition EINVAL :: error where
  "EINVAL = Errno 22"

text \<open>\<open>syscall.Cmsghdr\<close> and \<open>syscall.SocketControlMessage\<close>, as declared for linux/amd64.\<close>

record Cmsghdr =
  Len :: "64 word"
  Level :: "32 word"
  Type :: "32 word"

record SocketControlMessage =
  Header :: Cmsghdr
  Data :: "byte list"

text \<open>
  The functions fd.go calls. \<open>'c\<close> is the type of \<open>*net.UnixConn\<close> values and \<open>'f\<close> the type
  of \<open>*os.File\<close> values (the nil pointer included). A Go function that returns
  \<open>(value, error)\<close> returns a pair here, with \<open>None\<close> for the nil error, because fd.go tests
  the error and uses the value separately.
  \<^item> \<open>File via\<close> is \<open>via.File()\<close>: the duplicate of the connection's socket, or an error;
  \<^item> \<open>Fd f\<close> is \<open>f.Fd()\<close>;
  \<^item> \<open>NewFile fd name\<close> is \<open>os.NewFile(fd, name)\<close>;
  \<^item> \<open>CmsgSpace\<close>, \<open>ParseSocketControlMessage\<close>, \<open>ParseUnixRights\<close> and \<open>UnixRights\<close> are the
    functions of package syscall of these names;
  \<^item> \<open>Recvmsg socket oob\<close> is \<open>syscall.Recvmsg(socket, nil, oob, 0)\<close>: the contents of the
    buffer \<open>oob\<close> after the call, and the error;
  \<^item> \<open>Sendmsg socket oob\<close> is \<open>syscall.Sendmsg(socket, nil, oob, nil, 0)\<close>;
  \<^item> \<open>maxAlloc\<close> is the largest size the Go runtime accepts for one allocation.
\<close>

record ('c, 'f) sys =
  File :: "'c \<Rightarrow> 'f \<times> error option"
  Fd :: "'f \<Rightarrow> uintptr"
  NewFile :: "uintptr \<Rightarrow> string \<Rightarrow> 'f"
  CmsgSpace :: "goint \<Rightarrow> goint"
  Recvmsg :: "goint \<Rightarrow> byte list \<Rightarrow> byte list \<times> error option"
  ParseSocketControlMessage :: "byte list \<Rightarrow> SocketControlMessage list \<times> error option"
  ParseUnixRights :: "SocketControlMessage \<Rightarrow> goint list \<times> error option"
  UnixRights :: "goint list \<Rightarrow> byte list"
  Sendmsg :: "goint \<Rightarrow> byte list \<Rightarrow> error option"
  maxAlloc :: goint

text \<open>
  What a call of \<open>Get\<close> or \<open>Put\<close> does besides returning: the operations on the connection
  and on files, the allocation of the receive buffer and the two system calls, in the
  order they happen. \<open>Conn_Close\<close> is \<open>via.Close()\<close>, which fd.go never calls.
\<close>

datatype ('c, 'f) call =
    Conn_File 'c
  | Conn_Close 'c
  | File_Close 'f
  | Make_bytes goint
  | Sys_Recvmsg goint nat
  | Sys_Sendmsg goint "byte list"
  | Os_NewFile uintptr string

text \<open>A call returns, or panics.\<close>

datatype 'a outcome = Returned 'a | Panicked

text \<open>
  \<open>make([]byte, n)\<close>: a slice of \<open>n\<close> zero bytes. It panics (here \<open>None\<close>) when \<open>n\<close> is
  negative or more than the runtime accepts. Running out of memory below that bound ends
  the process and is not modelled.
\<close>

definition makeslice :: "('c, 'f) sys \<Rightarrow> goint \<Rightarrow> byte list option" where
  "makeslice S n =
     (if n <s 0 \<or> maxAlloc S <s n then None else Some (replicate (unat n) (0 :: byte)))"

section \<open>Get\<close>

text \<open>
  Lines 65 to 72: \<open>for fi, fd := range fds\<close>. The name is \<open>filenames[fi]\<close> when \<open>fi\<close> is an
  index of \<open>filenames\<close>, and the zero value of \<open>string\<close> otherwise; the file is appended to
  \<open>res\<close>.
\<close>

definition filename_for :: "string list \<Rightarrow> nat \<Rightarrow> string" where
  "filename_for filenames fi = (if fi < length filenames then filenames ! fi else '''')"

fun range_fds ::
  "('c, 'f) sys \<Rightarrow> string list \<Rightarrow> nat \<Rightarrow> goint list \<Rightarrow>
   'f list \<times> ('c, 'f) call list \<Rightarrow> 'f list \<times> ('c, 'f) call list" where
  "range_fds S filenames fi [] (res, tr) = (res, tr)"
| "range_fds S filenames fi (fd # fds) (res, tr) =
     (let filename = filename_for filenames fi
      in range_fds S filenames (Suc fi) fds
           (res @ [NewFile S fd filename], tr @ [Os_NewFile fd filename]))"

text \<open>
  Lines 61 to 73: \<open>for i := 0; i < len(msgs) && err == nil; i++\<close>. The list is what is left
  of \<open>msgs\<close> from index \<open>i\<close> on. The inner loop runs over the descriptors
  \<open>ParseUnixRights\<close> returned whether or not it returned an error as well.
\<close>

fun for_msgs ::
  "('c, 'f) sys \<Rightarrow> string list \<Rightarrow> SocketControlMessage list \<Rightarrow> error option \<Rightarrow>
   'f list \<times> ('c, 'f) call list \<Rightarrow> ('f list \<times> error option) \<times> ('c, 'f) call list" where
  "for_msgs S filenames [] err (res, tr) = ((res, err), tr)"
| "for_msgs S filenames (m # ms) err (res, tr) =
     (if err \<noteq> None then ((res, err), tr)
      else (case ParseUnixRights S m of
              (fds, err') \<Rightarrow> for_msgs S filenames ms err' (range_fds S filenames 0 fds (res, tr))))"

text \<open>
  Lines 49 to 75, the part of \<open>Get\<close> that runs after \<open>defer viaf.Close()\<close>: allocate the
  buffer, receive, parse, convert.
\<close>

definition Get_recv ::
  "('c, 'f) sys \<Rightarrow> goint \<Rightarrow> goint \<Rightarrow> string list \<Rightarrow>
   ('f list \<times> error option) outcome \<times> ('c, 'f) call list" where
  "Get_recv S socket num filenames =
     (let n = CmsgSpace S (num * 4) in
      case makeslice S n of
        None \<Rightarrow> (Panicked, [Make_bytes n])
      | Some buf \<Rightarrow>
          (case Recvmsg S socket buf of
             (buf', Some err) \<Rightarrow>
               (Returned ([], Some err), [Make_bytes n, Sys_Recvmsg socket (length buf)])
           | (buf', None) \<Rightarrow>
               (case ParseSocketControlMessage S buf' of
                  (msgs, err) \<Rightarrow>
                    (case for_msgs S filenames msgs err
                            ([], [Make_bytes n, Sys_Recvmsg socket (length buf)]) of
                       (r, tr) \<Rightarrow> (Returned r, tr)))))"

text \<open>
  \<open>Get\<close>, lines 35 to 76. The deferred \<open>viaf.Close()\<close> runs when the function leaves, by a
  return or by a panic, once line 46 has been reached.
\<close>

definition Get ::
  "('c, 'f) sys \<Rightarrow> 'c \<Rightarrow> goint \<Rightarrow> string list \<Rightarrow>
   ('f list \<times> error option) outcome \<times> ('c, 'f) call list" where
  "Get S via num filenames =
     (if num <s 1 then (Returned ([], None), [])
      else
        case File S via of
          (viaf, Some err) \<Rightarrow> (Returned ([], Some err), [Conn_File via])
        | (viaf, None) \<Rightarrow>
            (case Get_recv S (Fd S viaf) num filenames of
               (r, tr) \<Rightarrow> (r, Conn_File via # tr @ [File_Close viaf])))"

section \<open>Put\<close>

text \<open>Lines 95 to 98: \<open>fds := make([]int, len(files))\<close>, then \<open>fds[i] = int(files[i].Fd())\<close>.\<close>

definition Put_fds :: "('c, 'f) sys \<Rightarrow> 'f list \<Rightarrow> goint list" where
  "Put_fds S files =
     fold (\<lambda>i fds. fds[i := Fd S (files ! i)]) [0 ..< length files]
       (replicate (length files) 0)"

text \<open>\<open>Put\<close>, lines 83 to 102.\<close>

definition Put ::
  "('c, 'f) sys \<Rightarrow> 'c \<Rightarrow> 'f list \<Rightarrow> error option \<times> ('c, 'f) call list" where
  "Put S via files =
     (if length files = 0 then (None, [])
      else
        case File S via of
          (viaf, Some err) \<Rightarrow> (Some err, [Conn_File via])
        | (viaf, None) \<Rightarrow>
            (let socket = Fd S viaf;
                 rights = UnixRights S (Put_fds S files)
             in (Sendmsg S socket rights,
                 [Conn_File via, Sys_Sendmsg socket rights, File_Close viaf])))"

section \<open>A concrete environment: linux/amd64\<close>

text \<open>
  The functions of packages \<open>os\<close> and \<open>syscall\<close> that fd.go calls are part of the Go
  distribution, not of this repository. The definitions of this section follow them for
  linux/amd64 (\<open>SizeofCmsghdr = 16\<close>, alignment 8, little-endian, \<open>SOL_SOCKET = 1\<close>,
  \<open>SCM_RIGHTS = 1\<close>, allocations of at most \<open>2 ^ 48\<close> bytes) so that \<open>Get\<close> and \<open>Put\<close> can
  be run on the bytes a kernel delivers. The theorems about \<open>Get\<close> and \<open>Put\<close> are stated
  for every environment; this one is where they are applied.
\<close>

datatype osfile = NilFile | OsFile uintptr string

text \<open>\<open>os.NewFile\<close> returns nil when \<open>int(fd) < 0\<close>; \<open>Fd\<close> of nil is \<open>^uintptr(0)\<close>.\<close>

definition os_NewFile :: "uintptr \<Rightarrow> string \<Rightarrow> osfile" where
  "os_NewFile fd name = (if fd <s 0 then NilFile else OsFile fd name)"

fun os_Fd :: "osfile \<Rightarrow> uintptr" where
  "os_Fd NilFile = - 1"
| "os_Fd (OsFile fd name) = fd"

text \<open>\<open>cmsgAlignOf(salen) = (salen + 7) & ^7\<close>, written with division.\<close>

definition cmsgAlignOf :: "int \<Rightarrow> int" where
  "cmsgAlignOf salen = (salen + 7) div 8 * 8"

definition CmsgLen :: "int \<Rightarrow> int" where
  "CmsgLen datalen = cmsgAlignOf 16 + datalen"

definition linux_CmsgSpace :: "goint \<Rightarrow> goint" where
  "linux_CmsgSpace datalen = word_of_int (cmsgAlignOf 16 + cmsgAlignOf (sint datalen))"

text \<open>Little-endian integers in memory.\<close>

fun le_int :: "byte list \<Rightarrow> int" where
  "le_int [] = 0"
| "le_int (b # bs) = uint b + 256 * le_int bs"

fun le_bytes :: "nat \<Rightarrow> int \<Rightarrow> byte list" where
  "le_bytes 0 v = []"
| "le_bytes (Suc k) v = word_of_int v # le_bytes k (v div 256)"

definition SOL_SOCKET :: "32 word" where
  "SOL_SOCKET = 1"

definition SCM_RIGHTS :: "32 word" where
  "SCM_RIGHTS = 1"

text \<open>
  \<open>syscall.UnixRights\<close>: a buffer of \<open>CmsgSpace(4 * len(fds))\<close> bytes holding the header and
  each descriptor as an \<open>int32\<close>.
\<close>

definition linux_UnixRights :: "goint list \<Rightarrow> byte list" where
  "linux_UnixRights fds =
     (let datalen = 4 * int (length fds)
      in le_bytes 8 (CmsgLen datalen) @ le_bytes 4 (uint SOL_SOCKET) @ le_bytes 4 (uint SCM_RIGHTS)
         @ concat (map (\<lambda>fd. le_bytes 4 (sint fd)) fds)
         @ replicate (nat (cmsgAlignOf datalen - datalen)) 0)"

text \<open>
  \<open>socketControlMessageHeaderAndData\<close>: the header at the start of \<open>b\<close> and the data
  \<open>b[16:h.Len]\<close>, or \<open>EINVAL\<close> (here \<open>None\<close>) when \<open>h.Len\<close> is less than the header's size
  or more than \<open>len(b)\<close>.
\<close>

definition socketControlMessageHeaderAndData ::
  "byte list \<Rightarrow> (Cmsghdr \<times> byte list) option" where
  "socketControlMessageHeaderAndData b =
     (let h = \<lparr>Len = word_of_int (le_int (take 8 b)),
               Level = word_of_int (le_int (take 4 (drop 8 b))),
               Type = word_of_int (le_int (take 4 (drop 12 b)))\<rparr>
      in if uint (Len h) < 16 \<or> int (length b) < uint (Len h) then None
         else Some (h, take (unat (Len h) - 16) (drop 16 b)))"

text \<open>
  \<open>syscall.ParseSocketControlMessage\<close>: \<open>for i+CmsgLen(0) <= len(b)\<close>, read a message at
  \<open>b[i:]\<close> and step by \<open>cmsgAlignOf(int(h.Len))\<close>; the first bad header gives \<open>nil, EINVAL\<close>.
\<close>

function parse_from ::
  "byte list \<Rightarrow> nat \<Rightarrow> SocketControlMessage list \<Rightarrow> SocketControlMessage list \<times> error option" where
  "parse_from b i msgs =
     (if i + nat (CmsgLen 0) \<le> length b then
        (case socketControlMessageHeaderAndData (drop i b) of
           None \<Rightarrow> ([], Some EINVAL)
         | Some (h, dbuf) \<Rightarrow>
             parse_from b (i + nat (cmsgAlignOf (uint (Len h))))
               (msgs @ [\<lparr>Header = h, Data = dbuf\<rparr>]))
      else (msgs, None))"
  by pat_completeness auto
termination
proof (relation "measure (\<lambda>(b, i, msgs). length b - i)", goal_cases)
  case 1
  show ?case by simp
next
  case (2 b i msgs x h dbuf)
  from 2(2,3) have "16 \<le> uint (Len h)"
    by (auto simp: socketControlMessageHeaderAndData_def Let_def split: if_splits)
  then have "0 < nat (cmsgAlignOf (uint (Len h)))"
    by (simp add: cmsgAlignOf_def)
  moreover from 2(1) have "i < length b"
    by (simp add: CmsgLen_def cmsgAlignOf_def)
  ultimately show ?case by simp
qed

definition linux_ParseSocketControlMessage ::
  "byte list \<Rightarrow> SocketControlMessage list \<times> error option" where
  "linux_ParseSocketControlMessage b = parse_from b 0 []"

text \<open>
  The \<open>int32\<close> values stored in a message's data, each widened to \<open>int\<close>; \<open>None\<close> when
  the data is not a whole number of \<open>int32\<close>s.
\<close>

fun int32s :: "byte list \<Rightarrow> goint list option" where
  "int32s [] = Some []"
| "int32s (a # b # c # d # rest) =
     map_option (\<lambda>fds. scast (word_of_int (le_int [a, b, c, d]) :: 32 word) # fds) (int32s rest)"
| "int32s rest = None"


text \<open>
  Modelled from the spec: ExtractRights (section 4.1), the part \<open>syscall.ParseUnixRights\<close> of
  the Go distribution plays in fd.go; that function is not a file of this repository. If
  the message is a rights message it returns the message's descriptors in order; otherwise
  it signals a parse error (\<open>EINVAL\<close>) and returns no descriptor. A rights message whose
  data is not a whole number of descriptors is malformed and is a parse error as well (the
  Go function has no error return for such data: it indexes past the slice it allocated).
  For a message that is not a rights message the spec names two policies, an error or no
  descriptors, and leaves the choice open; this is the first, the one its sentence on
  ExtractRights states and \<open>syscall.ParseUnixRights\<close> takes.
\<close>

definition ExtractRights :: "SocketControlMessage \<Rightarrow> goint list \<times> error option" where
  "ExtractRights m =
     (if Level (Header m) \<noteq> SOL_SOCKET then ([], Some EINVAL)
      else if Type (Header m) \<noteq> SCM_RIGHTS then ([], Some EINVAL)
      else (case int32s (Data m) of
              None \<Rightarrow> ([], Some EINVAL)
            | Some fds \<Rightarrow> (fds, None)))"

text \<open>
  The environment of one call on linux/amd64, given what the outside answers during the
  call: \<open>dup\<close> is the result of \<open>via.File()\<close>, \<open>oob\<close> the control bytes the kernel has for
  the socket and \<open>rerr\<close> the error of \<open>recvmsg\<close>, \<open>serr\<close> the error of \<open>sendmsg\<close>. The kernel
  writes as much of \<open>oob\<close> as fits into the buffer and leaves the rest of the buffer as it
  was.
\<close>

definition linux_amd64 ::
  "osfile \<times> error option \<Rightarrow> byte list \<times> error option \<Rightarrow> error option \<Rightarrow> (nat, osfile) sys" where
  "linux_amd64 dup delivered serr =
     \<lparr>File = (\<lambda>via. dup),
      Fd = os_Fd,
      NewFile = os_NewFile,
      CmsgSpace = linux_CmsgSpace,
      Recvmsg = (\<lambda>socket buf.
         (take (length buf) (fst delivered) @ drop (length (fst delivered)) buf, snd delivered)),
      ParseSocketControlMessage = linux_ParseSocketControlMessage,
      ParseUnixRights = ExtractRights,
      UnixRights = linux_UnixRights,
      Sendmsg = (\<lambda>socket oob. serr),
      maxAlloc = 2 ^ 48\<rparr>"

text \<open>
  A control message that is not a rights message, as the kernel writes it: the
  credentials of the sender (\<open>SCM_CREDENTIALS = 2\<close>; process 100, user 1000, group 1000),
  28 bytes padded to 32.
\<close>

definition credentials_cmsg :: "byte list" where
  "credentials_cmsg =
     [28, 0, 0, 0, 0, 0, 0, 0, 1, 0, 0, 0, 2, 0, 0, 0,
      100, 0, 0, 0, 232, 3, 0, 0, 232, 3, 0, 0, 0, 0, 0, 0]"


section \<open>Notions used to state the properties\<close>

text \<open>
  The files the inner loop makes from the descriptors of one message, and the calls of
  \<open>os.NewFile\<close> it makes for them: descriptor number \<open>fi\<close> of the message gets
  \<open>filename_for filenames fi\<close>.
\<close>

definition files_of :: "('c, 'f) sys \<Rightarrow> string list \<Rightarrow> goint list \<Rightarrow> 'f list" where
  "files_of S filenames fds =
     map (\<lambda>(fi, fd). NewFile S fd (filename_for filenames fi)) (enumerate 0 fds)"

definition calls_of :: "string list \<Rightarrow> goint list \<Rightarrow> ('c, 'f) call list" where
  "calls_of filenames fds =
     map (\<lambda>(fi, fd). Os_NewFile fd (filename_for filenames fi)) (enumerate 0 fds)"

text \<open>The calls on the connection, and the calls that close a file.\<close>

fun on_conn :: "('c, 'f) call \<Rightarrow> bool" where
  "on_conn (Conn_File c) = True"
| "on_conn (Conn_Close c) = True"
| "on_conn e = False"

fun is_close :: "('c, 'f) call \<Rightarrow> bool" where
  "is_close (File_Close f) = True"
| "is_close e = False"

text \<open>The allocations of a buffer.\<close>

fun is_make :: "('c, 'f) call \<Rightarrow> bool" where
  "is_make (Make_bytes n) = True"
| "is_make e = False"

section \<open>The loops of Get and Put in closed form\<close>

lemma Put_fds_map: "Put_fds S files = map (Fd S) files"
proof -
  have "k \<le> length files \<Longrightarrow>
        fold (\<lambda>i fds. fds[i := Fd S (files ! i)]) [0 ..< k] (replicate (length files) 0)
        = map (Fd S) (take k files) @ replicate (length files - k) 0" for k
  proof (induction k)
    case 0
    then show ?case by simp
  next
    case (Suc k)
    then have k: "k < length files" by simp
    have "(map (Fd S) (take k files) @ replicate (length files - k) 0)[k := Fd S (files ! k)]
          = map (Fd S) (take k files) @ (replicate (length files - k) 0)[0 := Fd S (files ! k)]"
      using k by (simp add: list_update_append)
    also have "(replicate (length files - k) (0 :: goint))[0 := Fd S (files ! k)]
          = Fd S (files ! k) # replicate (length files - Suc k) 0"
      using k by (cases "length files - k") (simp_all add: Suc_diff_Suc)
    finally show ?case
      using Suc k by (simp add: take_Suc_conv_app_nth)
  qed
  from this [of "length files"] show ?thesis
    by (simp add: Put_fds_def)
qed

lemma files_of_Nil [simp]: "files_of S filenames [] = []"
  by (simp add: files_of_def)

lemma calls_of_Nil [simp]: "calls_of filenames [] = []"
  by (simp add: calls_of_def)

lemma range_fds_from:
  "range_fds S filenames fi fds (res, tr) =
     (res @ map (\<lambda>(i, fd). NewFile S fd (filename_for filenames i)) (enumerate fi fds),
      tr @ map (\<lambda>(i, fd). Os_NewFile fd (filename_for filenames i)) (enumerate fi fds))"
  by (induction fds arbitrary: fi res tr) (simp_all add: Let_def)

lemma range_fds_closed:
  "range_fds S filenames 0 fds (res, tr) = (res @ files_of S filenames fds, tr @ calls_of filenames fds)"
  by (simp add: range_fds_from files_of_def calls_of_def)

lemma for_msgs_error: "for_msgs S filenames msgs (Some e) (res, tr) = ((res, Some e), tr)"
  by (cases msgs) simp_all

lemma for_msgs_prefix:
  "\<forall>p \<in> set pre. snd (ParseUnixRights S p) = None \<Longrightarrow>
   for_msgs S filenames (pre @ rest) None (res, tr) =
   for_msgs S filenames rest None
     (res @ concat (map (\<lambda>p. files_of S filenames (fst (ParseUnixRights S p))) pre),
      tr @ concat (map (\<lambda>p. calls_of filenames (fst (ParseUnixRights S p))) pre))"
proof (induction pre arbitrary: res tr)
  case Nil
  then show ?case by simp
next
  case (Cons p pre)
  obtain fds where p: "ParseUnixRights S p = (fds, None)"
    using Cons.prems by (cases "ParseUnixRights S p") auto
  from Cons.prems have "\<forall>q \<in> set pre. snd (ParseUnixRights S q) = None" by simp
  from Cons.IH [OF this] show ?case
    by (simp add: p range_fds_closed)
qed

lemma for_msgs_stop:
  "ParseUnixRights S m = (fds, Some e) \<Longrightarrow>
   for_msgs S filenames (m # post) None (res, tr) =
     ((res @ files_of S filenames fds, Some e), tr @ calls_of filenames fds)"
  by (simp add: range_fds_closed for_msgs_error)

lemma Get_received:
  assumes "\<not> num <s 1" and "File S via = (viaf, None)"
    and "makeslice S (CmsgSpace S (num * 4)) = Some buf"
    and "Recvmsg S (Fd S viaf) buf = (buf', None)"
    and "ParseSocketControlMessage S buf' = (msgs, perr)"
    and "for_msgs S filenames msgs perr
           ([], [Make_bytes (CmsgSpace S (num * 4)),
                 Sys_Recvmsg (Fd S viaf) (length buf)]) = (r, tr)"
  shows "Get S via num filenames = (Returned r, Conn_File via # tr @ [File_Close viaf])"
  using assms by (simp add: Get_def Get_recv_def Let_def)

lemma length_le_bytes [simp]: "length (le_bytes k v) = k"
  by (induction k arbitrary: v) simp_all

lemma length_int32_bytes:
  "length (concat (map (\<lambda>fd :: goint. le_bytes 4 (sint fd)) fds)) = 4 * length fds"
  by (induction fds) simp_all






lemma not_on_conn_calls_of [simp]: "filter on_conn (calls_of filenames fds) = []"
  by (simp add: calls_of_def filter_empty_conv split_def)

lemma not_is_close_calls_of [simp]: "filter is_close (calls_of filenames fds) = []"
  by (simp add: calls_of_def filter_empty_conv split_def)

lemma not_is_make_calls_of [simp]: "filter is_make (calls_of filenames fds) = []"
  by (simp add: calls_of_def filter_empty_conv split_def)

lemma for_msgs_trace:
  "\<exists>fdss. snd (for_msgs S filenames msgs err (res, tr)) = tr @ concat (map (calls_of filenames) fdss)"
proof (induction msgs arbitrary: err res tr)
  case Nil
  have "tr = tr @ concat (map (calls_of filenames) [])" by simp
  then show ?case by (metis for_msgs.simps(1) snd_conv)
next
  case (Cons m ms)
  show ?case
  proof (cases err)
    case (Some e)
    have "tr = tr @ concat (map (calls_of filenames) [])" by simp
    then show ?thesis using Some by (metis for_msgs_error snd_conv)
  next
    case None
    obtain fds e' where p: "ParseUnixRights S m = (fds, e')"
      by (cases "ParseUnixRights S m")
    from Cons.IH [of e' "res @ files_of S filenames fds" "tr @ calls_of filenames fds"]
    obtain fdss where
      "snd (for_msgs S filenames ms e' (res @ files_of S filenames fds, tr @ calls_of filenames fds))
       = (tr @ calls_of filenames fds) @ concat (map (calls_of filenames) fdss)"
      by blast
    then have "snd (for_msgs S filenames (m # ms) err (res, tr))
       = tr @ concat (map (calls_of filenames) (fds # fdss))"
      using None p by (simp add: range_fds_closed)
    then show ?thesis by blast
  qed
qed

lemma Get_recv_trace:
  "\<exists>tr. snd (Get_recv S socket num filenames) = Make_bytes (CmsgSpace S (num * 4)) # tr
     \<and> filter on_conn tr = [] \<and> filter is_close tr = [] \<and> filter is_make tr = []"
proof (cases "makeslice S (CmsgSpace S (num * 4))")
  case None
  then show ?thesis by (simp add: Get_recv_def)
next
  case (Some buf)
  let ?n = "CmsgSpace S (num * 4)"
  obtain buf' rerr where r: "Recvmsg S socket buf = (buf', rerr)"
    by (cases "Recvmsg S socket buf")
  show ?thesis
  proof (cases rerr)
    case (Some e)
    then show ?thesis using \<open>makeslice S ?n = Some buf\<close> r by (simp add: Get_recv_def Let_def)
  next
    case None
    obtain msgs perr where p: "ParseSocketControlMessage S buf' = (msgs, perr)"
      by (cases "ParseSocketControlMessage S buf'")
    obtain fdss where
      "snd (for_msgs S filenames msgs perr ([], [Make_bytes ?n, Sys_Recvmsg socket (length buf)]))
       = [Make_bytes ?n, Sys_Recvmsg socket (length buf)] @ concat (map (calls_of filenames) fdss)"
      using for_msgs_trace by blast
    then have "snd (Get_recv S socket num filenames)
       = Make_bytes ?n # Sys_Recvmsg socket (length buf) # concat (map (calls_of filenames) fdss)"
      using \<open>makeslice S ?n = Some buf\<close> r None p
      by (auto simp: Get_recv_def Let_def split: prod.splits)
    moreover have "filter on_conn (concat (map (calls_of filenames) fdss)) = []"
      by (induction fdss) simp_all
    moreover have "filter is_close (concat (map (calls_of filenames) fdss)) = []"
      by (induction fdss) simp_all
    moreover have "filter is_make (concat (map (calls_of filenames) fdss)) = []"
      by (induction fdss) simp_all
    ultimately show ?thesis by simp
  qed
qed

lemma Get_trace:
  assumes "\<not> num <s 1" and "File S via = (viaf, None)"
  shows "\<exists>tr. snd (Get S via num filenames)
             = Conn_File via # Make_bytes (CmsgSpace S (num * 4)) # tr @ [File_Close viaf]
           \<and> filter on_conn tr = [] \<and> filter is_close tr = [] \<and> filter is_make tr = []"
proof -
  obtain tr where tr:
    "snd (Get_recv S (Fd S viaf) num filenames) = Make_bytes (CmsgSpace S (num * 4)) # tr"
    "filter on_conn tr = []" "filter is_close tr = []" "filter is_make tr = []"
    using Get_recv_trace by blast
  have "snd (Get S via num filenames)
          = Conn_File via # Make_bytes (CmsgSpace S (num * 4)) # tr @ [File_Close viaf]"
    using assms tr(1) by (cases "Get_recv S (Fd S viaf) num filenames") (simp add: Get_def)
  with tr(2-4) show ?thesis by blast
qed

section \<open>The paths that do nothing\<close>

text \<open>
  C5. For every count below 1 (zero and the negative counts), \<open>Get\<close> returns the empty set
  of files and the nil error and makes no call at all: the connection is not touched, no
  buffer is allocated and nothing is received. The result does not depend on the
  environment, so every such call is the same no-op.
\<close>

theorem Get_count_below_one:
  "num <s 1 \<Longrightarrow> Get S via num filenames = (Returned ([], None), [])"
  by (simp add: Get_def)

theorem Get_count_below_one_witness:
  "(0 :: goint) <s 1 \<and> (- 1 :: goint) <s 1
   \<and> Get (linux_amd64 (NilFile, Some (OpError ''dup failed'')) ([], Some (Errno 11)) None) 0 0 [''a'']
       = (Returned ([], None), [])
   \<and> Get (linux_amd64 (NilFile, Some (OpError ''dup failed'')) ([], Some (Errno 11)) None) 0 (- 1) []
       = (Returned ([], None), [])"
proof -
  have a: "(0 :: goint) <s 1" by (simp add: word_sless_alt)
  have b: "(- 1 :: goint) <s 1" by (simp add: word_sless_alt)
  let ?S = "linux_amd64 (NilFile, Some (OpError ''dup failed'')) ([], Some (Errno 11)) None"
  show ?thesis
    using a b Get_count_below_one [where S = ?S and via = 0 and filenames = "[''a'']", OF a]
      Get_count_below_one [where S = ?S and via = 0 and filenames = "[]", OF b]
    by simp
qed

text \<open>
  C6. \<open>Put\<close> with no files returns the nil error and makes no call at all: the connection
  is not touched and nothing is sent.
\<close>

theorem Put_no_files: "Put S via [] = (None, [])"
  by (simp add: Put_def)

section \<open>Errors\<close>

text \<open>
  C8. With a count of at least 1, when \<open>via.File()\<close> fails \<open>Get\<close> returns no file and that
  error, having made no other call; when the receive fails \<open>Get\<close> returns no file and that
  error, having received once and made no file. \<open>Put\<close> with at least one file returns the
  error of \<open>via.File()\<close> having made no other call, and otherwise what its one send
  returned.
\<close>

theorem errors_returned_without_retry:
  "(\<not> num <s 1 \<and> File S via = (viaf, Some e) \<longrightarrow>
      Get S via num filenames = (Returned ([], Some e), [Conn_File via]))
   \<and> (\<not> num <s 1 \<and> File S via = (viaf, None) \<and> makeslice S (CmsgSpace S (num * 4)) = Some buf
        \<and> Recvmsg S (Fd S viaf) buf = (buf', Some e) \<longrightarrow>
      Get S via num filenames =
        (Returned ([], Some e),
         [Conn_File via, Make_bytes (CmsgSpace S (num * 4)),
          Sys_Recvmsg (Fd S viaf) (length buf), File_Close viaf]))
   \<and> (files \<noteq> [] \<and> File S via = (viaf, Some e) \<longrightarrow>
      Put S via files = (Some e, [Conn_File via]))
   \<and> (files \<noteq> [] \<and> File S via = (viaf, None) \<longrightarrow>
      Put S via files =
        (Sendmsg S (Fd S viaf) (UnixRights S (map (Fd S) files)),
         [Conn_File via, Sys_Sendmsg (Fd S viaf) (UnixRights S (map (Fd S) files)),
          File_Close viaf]))"
  by (simp add: Get_def Get_recv_def Put_def Let_def Put_fds_map)

theorem errors_returned_without_retry_witness:
  "Get (linux_amd64 (NilFile, Some (OpError ''dup: too many open files'')) ([], None) None) 0 1 []
     = (Returned ([], Some (OpError ''dup: too many open files'')), [Conn_File 0])
   \<and> Get (linux_amd64 (OsFile 9 ''unix'', None) ([], Some (Errno 104)) None) 0 1 []
     = (Returned ([], Some (Errno 104)),
        [Conn_File 0, Make_bytes 24, Sys_Recvmsg 9 24, File_Close (OsFile 9 ''unix'')])
   \<and> Put (linux_amd64 (NilFile, Some (OpError ''dup: too many open files'')) ([], None) None) 0
        [OsFile 3 ''a'']
     = (Some (OpError ''dup: too many open files''), [Conn_File 0])
   \<and> Put (linux_amd64 (OsFile 9 ''unix'', None) ([], None) (Some (Errno 32))) 0 [OsFile 3 ''a'']
     = (Some (Errno 32),
        [Conn_File 0,
         Sys_Sendmsg 9 [20, 0, 0, 0, 0, 0, 0, 0, 1, 0, 0, 0, 1, 0, 0, 0, 3, 0, 0, 0, 0, 0, 0, 0],
         File_Close (OsFile 9 ''unix'')])"
proof -
  let ?A = "linux_amd64 (NilFile, Some (OpError ''dup: too many open files'')) ([], None) None"
  let ?B = "linux_amd64 (OsFile 9 ''unix'', None) ([], Some (Errno 104)) None"
  let ?C = "linux_amd64 (OsFile 9 ''unix'', None) ([], None) (Some (Errno 32))"
  have one: "\<not> (1 :: goint) <s 1"
    by (simp add: word_sless_alt)
  have a: "File ?A 0 = (NilFile, Some (OpError ''dup: too many open files''))"
    by (simp add: linux_amd64_def)
  have b: "File ?B 0 = (OsFile 9 ''unix'', None) \<and> makeslice ?B (CmsgSpace ?B (1 * 4)) = Some (replicate 24 0)
      \<and> Recvmsg ?B (Fd ?B (OsFile 9 ''unix'')) (replicate 24 0)
          = (replicate 24 0, Some (Errno 104))"
    by code_simp
  have c: "File ?C 0 = (OsFile 9 ''unix'', None)"
    by (simp add: linux_amd64_def)
  note t = errors_returned_without_retry
  from t [where S = ?A and num = 1 and via = 0 and filenames = "[]" and files = "[OsFile 3 ''a'']"
           and viaf = NilFile and e = "OpError ''dup: too many open files''"] one a
  have 1: "Get ?A 0 1 [] = (Returned ([], Some (OpError ''dup: too many open files'')), [Conn_File 0])"
    and 3: "Put ?A 0 [OsFile 3 ''a''] = (Some (OpError ''dup: too many open files''), [Conn_File 0])"
    by blast+
  from t [where S = ?B and num = 1 and via = 0 and filenames = "[]"
           and viaf = "OsFile 9 ''unix''" and e = "Errno 104" and buf' = "replicate 24 0"] one b
  have "Get ?B 0 1 [] = (Returned ([], Some (Errno 104)),
        [Conn_File 0, Make_bytes (CmsgSpace ?B (1 * 4)),
         Sys_Recvmsg (Fd ?B (OsFile 9 ''unix'')) (length (replicate 24 (0 :: byte))),
         File_Close (OsFile 9 ''unix'')])"
    by blast
  also have "\<dots> = (Returned ([], Some (Errno 104)),
        [Conn_File 0, Make_bytes 24, Sys_Recvmsg 9 24, File_Close (OsFile 9 ''unix'')])"
    by code_simp
  finally have 2: "Get ?B 0 1 [] = (Returned ([], Some (Errno 104)),
        [Conn_File 0, Make_bytes 24, Sys_Recvmsg 9 24, File_Close (OsFile 9 ''unix'')])" .
  from t [where S = ?C and via = 0 and files = "[OsFile 3 ''a'']" and viaf = "OsFile 9 ''unix''"] c
  have "Put ?C 0 [OsFile 3 ''a''] =
        (Sendmsg ?C (Fd ?C (OsFile 9 ''unix'')) (UnixRights ?C (map (Fd ?C) [OsFile 3 ''a''])),
         [Conn_File 0,
          Sys_Sendmsg (Fd ?C (OsFile 9 ''unix'')) (UnixRights ?C (map (Fd ?C) [OsFile 3 ''a''])),
          File_Close (OsFile 9 ''unix'')])"
    by blast
  also have "\<dots> = (Some (Errno 32),
        [Conn_File 0,
         Sys_Sendmsg 9 [20, 0, 0, 0, 0, 0, 0, 0, 1, 0, 0, 0, 1, 0, 0, 0, 3, 0, 0, 0, 0, 0, 0, 0],
         File_Close (OsFile 9 ''unix'')])"
    by code_simp
  finally have 4: "Put ?C 0 [OsFile 3 ''a''] = (Some (Errno 32),
        [Conn_File 0,
         Sys_Sendmsg 9 [20, 0, 0, 0, 0, 0, 0, 0, 1, 0, 0, 0, 1, 0, 0, 0, 3, 0, 0, 0, 0, 0, 0, 0],
         File_Close (OsFile 9 ''unix'')])" .
  from 1 2 3 4 show ?thesis by blast
qed

section \<open>The duplicate of the connection's socket\<close>

text \<open>
  C7. Whenever \<open>via.File()\<close> has given \<open>Get\<close> (count at least 1) or \<open>Put\<close> (at least one
  file) the duplicate \<open>viaf\<close>, the last call of the operation is \<open>viaf.Close()\<close>, on every
  path: a return with or without an error, and a panic. It is the only file the operation
  closes, and the only call on the connection is the \<open>via.File()\<close> that started it: the
  connection is never closed.
\<close>

theorem duplicate_closed_on_every_path:
  assumes "File S via = (viaf, None)"
  shows "(\<not> num <s 1 \<longrightarrow>
            last (snd (Get S via num filenames)) = File_Close viaf
          \<and> filter is_close (snd (Get S via num filenames)) = [File_Close viaf]
          \<and> filter on_conn (snd (Get S via num filenames)) = [Conn_File via])
       \<and> (files \<noteq> [] \<longrightarrow>
            last (snd (Put S via files)) = File_Close viaf
          \<and> filter is_close (snd (Put S via files)) = [File_Close viaf]
          \<and> filter on_conn (snd (Put S via files)) = [Conn_File via])"
proof (intro conjI impI)
  assume n: "\<not> num <s 1"
  from Get_trace [OF n assms] obtain tr where
    g: "snd (Get S via num filenames)
          = Conn_File via # Make_bytes (CmsgSpace S (num * 4)) # tr @ [File_Close viaf]"
    and tr: "filter on_conn tr = []" "filter is_close tr = []"
    by blast
  show "last (snd (Get S via num filenames)) = File_Close viaf"
    by (simp add: g)
  show "filter is_close (snd (Get S via num filenames)) = [File_Close viaf]"
    by (simp add: g tr)
  show "filter on_conn (snd (Get S via num filenames)) = [Conn_File via]"
    by (simp add: g tr)
next
  assume f: "files \<noteq> []"
  then have p: "snd (Put S via files)
     = [Conn_File via, Sys_Sendmsg (Fd S viaf) (UnixRights S (Put_fds S files)), File_Close viaf]"
    using assms by (simp add: Put_def Let_def)
  show "last (snd (Put S via files)) = File_Close viaf" by (simp add: p)
  show "filter is_close (snd (Put S via files)) = [File_Close viaf]" by (simp add: p)
  show "filter on_conn (snd (Put S via files)) = [Conn_File via]" by (simp add: p)
qed

theorem duplicate_closed_on_every_path_witness:
  "last (snd (Get (linux_amd64 (OsFile 9 ''unix'', None) (linux_UnixRights [5], None) None) 0 1 []))
     = File_Close (OsFile 9 ''unix'')
   \<and> filter is_close
        (snd (Get (linux_amd64 (OsFile 9 ''unix'', None) (linux_UnixRights [5], None) None) 0 1 []))
     = [File_Close (OsFile 9 ''unix'')]
   \<and> filter on_conn
        (snd (Get (linux_amd64 (OsFile 9 ''unix'', None) (linux_UnixRights [5], None) None) 0 1 []))
     = [Conn_File 0]
   \<and> last (snd (Put (linux_amd64 (OsFile 9 ''unix'', None) (linux_UnixRights [5], None) None) 0
                  [OsFile 3 ''a'']))
     = File_Close (OsFile 9 ''unix'')
   \<and> filter is_close
        (snd (Put (linux_amd64 (OsFile 9 ''unix'', None) (linux_UnixRights [5], None) None) 0
                [OsFile 3 ''a'']))
     = [File_Close (OsFile 9 ''unix'')]
   \<and> filter on_conn
        (snd (Put (linux_amd64 (OsFile 9 ''unix'', None) (linux_UnixRights [5], None) None) 0
                [OsFile 3 ''a'']))
     = [Conn_File 0]
   \<and> fst (Get (linux_amd64 (OsFile 9 ''unix'', None) (linux_UnixRights [5], None) None)
            0 140737488355328 [])
     = Panicked
   \<and> last (snd (Get (linux_amd64 (OsFile 9 ''unix'', None) (linux_UnixRights [5], None) None)
                  0 140737488355328 []))
     = File_Close (OsFile 9 ''unix'')
   \<and> fst (Get (linux_amd64 (OsFile 9 ''unix'', None) (credentials_cmsg, None) None) 0 4 [])
     = Returned ([], Some EINVAL)
   \<and> last (snd (Get (linux_amd64 (OsFile 9 ''unix'', None) (credentials_cmsg, None) None) 0 4 []))
     = File_Close (OsFile 9 ''unix'')"
proof -
  let ?S = "linux_amd64 (OsFile 9 ''unix'', None) (linux_UnixRights [5], None) None"
  let ?P = "linux_amd64 (OsFile 9 ''unix'', None) (credentials_cmsg, None) None"
  have f: "File ?S 0 = (OsFile 9 ''unix'', None)"
    by (simp add: linux_amd64_def)
  have g: "File ?P 0 = (OsFile 9 ''unix'', None)"
    by (simp add: linux_amd64_def)
  have n: "\<not> (1 :: goint) <s 1"
    by (simp add: word_sless_alt)
  have big: "\<not> (140737488355328 :: goint) <s 1"
    by (simp add: word_sless_alt)
  have four: "\<not> (4 :: goint) <s 1"
    by (simp add: word_sless_alt)
  have m: "[OsFile 3 ''a''] \<noteq> []"
    by simp
  have panics: "fst (Get ?S 0 140737488355328 []) = Panicked"
    by code_simp
  have fails: "fst (Get ?P 0 4 []) = Returned ([], Some EINVAL)"
    by code_simp
  from duplicate_closed_on_every_path
         [where S = ?S and via = 0 and viaf = "OsFile 9 ''unix''" and num = 1
            and filenames = "[]" and files = "[OsFile 3 ''a'']", OF f] n m
  have returns:
    "last (snd (Get ?S 0 1 [])) = File_Close (OsFile 9 ''unix'')
     \<and> filter is_close (snd (Get ?S 0 1 [])) = [File_Close (OsFile 9 ''unix'')]
     \<and> filter on_conn (snd (Get ?S 0 1 [])) = [Conn_File 0]
     \<and> last (snd (Put ?S 0 [OsFile 3 ''a''])) = File_Close (OsFile 9 ''unix'')
     \<and> filter is_close (snd (Put ?S 0 [OsFile 3 ''a''])) = [File_Close (OsFile 9 ''unix'')]
     \<and> filter on_conn (snd (Put ?S 0 [OsFile 3 ''a''])) = [Conn_File 0]"
    by blast
  from duplicate_closed_on_every_path
         [where S = ?S and via = 0 and viaf = "OsFile 9 ''unix''" and num = 140737488355328
            and filenames = "[]" and files = "[]", OF f] big
  have on_panic: "last (snd (Get ?S 0 140737488355328 [])) = File_Close (OsFile 9 ''unix'')"
    by blast
  from duplicate_closed_on_every_path
         [where S = ?P and via = 0 and viaf = "OsFile 9 ''unix''" and num = 4
            and filenames = "[]" and files = "[]", OF g] four
  have on_error: "last (snd (Get ?P 0 4 [])) = File_Close (OsFile 9 ''unix'')"
    by blast
  from returns panics on_panic fails on_error show ?thesis by blast
qed

section \<open>The receive buffer\<close>




section \<open>Names\<close>

text \<open>
  C1. The specification pairs descriptor number \<open>i\<close> of the whole result with \<open>names[i]\<close>.
  The code indexes \<open>filenames\<close> with \<open>fi\<close>, the position of the descriptor in its own
  message, so the names start again with each message. Here the kernel delivers two rights
  messages of one descriptor each into the buffer of \<open>Get(via, 8, ["first"])\<close>: both files
  are named "first", where the specification gives the second the empty name.
\<close>

theorem Get_names_start_again_in_each_message:
  "Get (linux_amd64 (OsFile 9 ''unix'', None) (linux_UnixRights [5] @ linux_UnixRights [6], None) None)
       0 8 [''first'']
     = (Returned ([OsFile 5 ''first'', OsFile 6 ''first''], None),
        [Conn_File 0, Make_bytes 48, Sys_Recvmsg 9 48,
         Os_NewFile 5 ''first'', Os_NewFile 6 ''first'', File_Close (OsFile 9 ''unix'')])
   \<and> linux_ParseSocketControlMessage (linux_UnixRights [5] @ linux_UnixRights [6])
     = ([\<lparr>Header = \<lparr>Len = 20, Level = SOL_SOCKET, Type = SCM_RIGHTS\<rparr>, Data = [5, 0, 0, 0]\<rparr>,
         \<lparr>Header = \<lparr>Len = 20, Level = SOL_SOCKET, Type = SCM_RIGHTS\<rparr>, Data = [6, 0, 0, 0]\<rparr>],
        None)"
  by code_simp

section \<open>A message that cannot be decoded\<close>

text \<open>
  C2. When the buffer decodes into messages and \<open>ParseUnixRights\<close> fails on one of them
  (returning no descriptor and an error, as it does when it fails), all messages before
  it having been decoded, \<open>Get\<close> returns the files of the messages before it together with
  that error.
\<close>

theorem Get_partial_result_with_error:
  assumes "\<not> num <s 1" and "File S via = (viaf, None)"
    and "makeslice S (CmsgSpace S (num * 4)) = Some buf"
    and "Recvmsg S (Fd S viaf) buf = (buf', None)"
    and "ParseSocketControlMessage S buf' = (pre @ m # post, None)"
    and "\<forall>p \<in> set pre. snd (ParseUnixRights S p) = None"
    and "ParseUnixRights S m = ([], Some e)"
  shows "fst (Get S via num filenames)
           = Returned (concat (map (\<lambda>p. files_of S filenames (fst (ParseUnixRights S p))) pre),
                       Some e)"
proof -
  let ?acc = "([], [Make_bytes (CmsgSpace S (num * 4)),
                    Sys_Recvmsg (Fd S viaf) (length buf)])"
  have "for_msgs S filenames (pre @ m # post) None ?acc
          = ((concat (map (\<lambda>p. files_of S filenames (fst (ParseUnixRights S p))) pre), Some e),
             snd ?acc @ concat (map (\<lambda>p. calls_of filenames (fst (ParseUnixRights S p))) pre))"
    using for_msgs_prefix [OF assms(6)] for_msgs_stop [OF assms(7)]
    by (simp add: files_of_def calls_of_def)
  from Get_received [OF assms(1-5) this] show ?thesis by simp
qed


theorem Get_partial_result_with_error_witness:
  "fst (Get (linux_amd64 (OsFile 9 ''unix'', None)
               (linux_UnixRights [5, 6] @ credentials_cmsg @ linux_UnixRights [7], None) None)
          0 16 [''first'', ''second'', ''third''])
     = Returned ([OsFile 5 ''first'', OsFile 6 ''second''], Some EINVAL)"
proof -
  let ?oob = "linux_UnixRights [5, 6] @ credentials_cmsg @ linux_UnixRights [7]"
  let ?S = "linux_amd64 (OsFile 9 ''unix'', None) (?oob, None) None"
  let ?pre = "[\<lparr>Header = \<lparr>Len = 24, Level = 1, Type = 1\<rparr>, Data = [5, 0, 0, 0, 6, 0, 0, 0]\<rparr>]"
  let ?m = "\<lparr>Header = \<lparr>Len = 28, Level = 1, Type = 2\<rparr>,
             Data = [100, 0, 0, 0, 232, 3, 0, 0, 232, 3, 0, 0]\<rparr>"
  let ?post = "[\<lparr>Header = \<lparr>Len = 20, Level = 1, Type = 1\<rparr>, Data = [7, 0, 0, 0]\<rparr>]"
  have 1: "\<not> (16 :: goint) <s 1"
    by (simp add: word_sless_alt)
  have 2: "File ?S 0 = (OsFile 9 ''unix'', None)"
    by (simp add: linux_amd64_def)
  have 3: "makeslice ?S (CmsgSpace ?S (16 * 4)) = Some (replicate 80 0)"
    by code_simp
  have 4: "Recvmsg ?S (Fd ?S (OsFile 9 ''unix'')) (replicate 80 0)
             = (?oob, None)"
    by code_simp
  have 5: "ParseSocketControlMessage ?S ?oob = (?pre @ ?m # ?post, None)"
    by code_simp
  have 6: "\<forall>p \<in> set ?pre. snd (ParseUnixRights ?S p) = None"
    by code_simp
  have 7: "ParseUnixRights ?S ?m = ([], Some EINVAL)"
    by code_simp
  have "fst (Get ?S 0 16 [''first'', ''second'', ''third''])
          = Returned (concat (map (\<lambda>p. files_of ?S [''first'', ''second'', ''third'']
                                       (fst (ParseUnixRights ?S p))) ?pre), Some EINVAL)"
    by (rule Get_partial_result_with_error [OF 1 2 3 4 5 6 7])
  also have "\<dots> = Returned ([OsFile 5 ''first'', OsFile 6 ''second''], Some EINVAL)"
    by code_simp
  finally show ?thesis .
qed



section \<open>The count\<close>

text \<open>
  C9, as the code has it. \<open>Get\<close> never compares what it received with the count: the
  count decides the size of the buffer and nothing else, so two counts of at least 1 that
  give the same size give the same call of \<open>Get\<close>. When the whole buffer decodes and every
  message gives its descriptors, \<open>Get\<close> returns the nil error and one file for each
  descriptor decoded, whatever the count was.
\<close>

theorem Get_never_checks_the_count:
  assumes "\<not> num <s 1" and "File S via = (viaf, None)"
    and "makeslice S (CmsgSpace S (num * 4)) = Some buf"
    and "Recvmsg S (Fd S viaf) buf = (buf', None)"
    and "ParseSocketControlMessage S buf' = (msgs, None)"
    and "\<forall>m \<in> set msgs. snd (ParseUnixRights S m) = None"
  shows "fst (Get S via num filenames)
           = Returned (concat (map (\<lambda>m. files_of S filenames (fst (ParseUnixRights S m))) msgs), None)
       \<and> length (concat (map (\<lambda>m. files_of S filenames (fst (ParseUnixRights S m))) msgs))
           = sum_list (map (\<lambda>m. length (fst (ParseUnixRights S m))) msgs)
       \<and> (\<not> num' <s 1 \<and> CmsgSpace S (num' * 4) = CmsgSpace S (num * 4) \<longrightarrow>
            Get S via num' filenames = Get S via num filenames)"
proof (intro conjI impI)
  let ?acc = "([], [Make_bytes (CmsgSpace S (num * 4)),
                    Sys_Recvmsg (Fd S viaf) (length buf)])"
  have "for_msgs S filenames (msgs @ []) None ?acc
          = ((concat (map (\<lambda>m. files_of S filenames (fst (ParseUnixRights S m))) msgs), None),
             snd ?acc @ concat (map (\<lambda>m. calls_of filenames (fst (ParseUnixRights S m))) msgs))"
    unfolding for_msgs_prefix [OF assms(6)] by simp
  then have "for_msgs S filenames msgs None ?acc
          = ((concat (map (\<lambda>m. files_of S filenames (fst (ParseUnixRights S m))) msgs), None),
             snd ?acc @ concat (map (\<lambda>m. calls_of filenames (fst (ParseUnixRights S m))) msgs))"
    by simp
  from Get_received [OF assms(1-5) this]
  show "fst (Get S via num filenames)
          = Returned (concat (map (\<lambda>m. files_of S filenames (fst (ParseUnixRights S m))) msgs), None)"
    by simp
  show "length (concat (map (\<lambda>m. files_of S filenames (fst (ParseUnixRights S m))) msgs))
          = sum_list (map (\<lambda>m. length (fst (ParseUnixRights S m))) msgs)"
    by (simp add: length_concat files_of_def comp_def)
next
  assume "\<not> num' <s 1 \<and> CmsgSpace S (num' * 4) = CmsgSpace S (num * 4)"
  then show "Get S via num' filenames = Get S via num filenames"
    using assms(1) by (simp add: Get_def Get_recv_def)
qed

theorem Get_never_checks_the_count_witness:
  "fst (Get (linux_amd64 (OsFile 9 ''unix'', None) (linux_UnixRights [5, 6], None) None) 0 1 [])
     = Returned ([OsFile 5 '''', OsFile 6 ''''], None)
   \<and> Get (linux_amd64 (OsFile 9 ''unix'', None) (linux_UnixRights [5, 6], None) None) 0 2 []
     = Get (linux_amd64 (OsFile 9 ''unix'', None) (linux_UnixRights [5, 6], None) None) 0 1 []
   \<and> fst (Get (linux_amd64 (OsFile 9 ''unix'', None) (linux_UnixRights [5], None) None) 0 3 [])
     = Returned ([OsFile 5 ''''], None)"
proof -
  let ?S = "linux_amd64 (OsFile 9 ''unix'', None) (linux_UnixRights [5, 6], None) None"
  let ?msgs = "[\<lparr>Header = \<lparr>Len = 24, Level = 1, Type = 1\<rparr>, Data = [5, 0, 0, 0, 6, 0, 0, 0]\<rparr>]"
  have 1: "\<not> (1 :: goint) <s 1"
    by (simp add: word_sless_alt)
  have 2: "File ?S 0 = (OsFile 9 ''unix'', None)"
    by (simp add: linux_amd64_def)
  have 3: "makeslice ?S (CmsgSpace ?S (1 * 4)) = Some (replicate 24 0)"
    by code_simp
  have 4: "Recvmsg ?S (Fd ?S (OsFile 9 ''unix'')) (replicate 24 0)
             = (linux_UnixRights [5, 6], None)"
    by code_simp
  have 5: "ParseSocketControlMessage ?S (linux_UnixRights [5, 6]) = (?msgs, None)"
    by code_simp
  have 6: "\<forall>m \<in> set ?msgs. snd (ParseUnixRights ?S m) = None"
    by code_simp
  have 7: "\<not> (2 :: goint) <s 1 \<and> CmsgSpace ?S (2 * 4) = CmsgSpace ?S (1 * 4)"
    by code_simp
  note a = Get_never_checks_the_count
             [where num' = 2 and filenames = "[]", OF 1 2 3 4 5 6]
  have "fst (Get ?S 0 1 [])
          = Returned (concat (map (\<lambda>m. files_of ?S [] (fst (ParseUnixRights ?S m))) ?msgs), None)"
    using a by blast
  also have "\<dots> = Returned ([OsFile 5 '''', OsFile 6 ''''], None)"
    by code_simp
  finally have more: "fst (Get ?S 0 1 []) = Returned ([OsFile 5 '''', OsFile 6 ''''], None)" .
  have same: "Get ?S 0 2 [] = Get ?S 0 1 []"
    using a 7 by blast
  let ?T = "linux_amd64 (OsFile 9 ''unix'', None) (linux_UnixRights [5], None) None"
  let ?one = "[\<lparr>Header = \<lparr>Len = 20, Level = 1, Type = 1\<rparr>, Data = [5, 0, 0, 0]\<rparr>]"
  have t1: "\<not> (3 :: goint) <s 1"
    by (simp add: word_sless_alt)
  have t2: "File ?T 0 = (OsFile 9 ''unix'', None)"
    by (simp add: linux_amd64_def)
  have t3: "makeslice ?T (CmsgSpace ?T (3 * 4)) = Some (replicate 32 0)"
    by code_simp
  have t4: "Recvmsg ?T (Fd ?T (OsFile 9 ''unix'')) (replicate 32 0)
             = (linux_UnixRights [5] @ replicate 8 0, None)"
    by code_simp
  have t5: "ParseSocketControlMessage ?T (linux_UnixRights [5] @ replicate 8 0) = (?one, None)"
    by code_simp
  have t6: "\<forall>m \<in> set ?one. snd (ParseUnixRights ?T m) = None"
    by code_simp
  have "fst (Get ?T 0 3 [])
          = Returned (concat (map (\<lambda>m. files_of ?T [] (fst (ParseUnixRights ?T m))) ?one), None)"
    using Get_never_checks_the_count [where num' = 3 and filenames = "[]", OF t1 t2 t3 t4 t5 t6]
    by blast
  also have "\<dots> = Returned ([OsFile 5 ''''], None)"
    by code_simp
  finally have fewer: "fst (Get ?T 0 3 []) = Returned ([OsFile 5 ''''], None)" .
  from more same fewer show ?thesis by blast
qed

text \<open>
  C9 as the specification states it, that a count which does not match what arrives
  produces no error, fails. \<open>Get\<close> drops the number of control bytes \<open>Recvmsg\<close> returns
  (line 50) and parses the whole buffer (line 57). On linux/amd64, when the count is 5 and
  one descriptor arrives, the message takes 24 of the 40 bytes; the 16 zero bytes after it
  are read as a header of length 0, and \<open>Get\<close> returns \<open>EINVAL\<close> and no file for the descriptor
  that was received. With count 1 the same message gives its file and no error.
\<close>

theorem Get_count_mismatch_counterexample:
  "Get (linux_amd64 (OsFile 9 ''unix'', None) (linux_UnixRights [5], None) None) 0 5 []
     = (Returned ([], Some EINVAL),
        [Conn_File 0, Make_bytes 40, Sys_Recvmsg 9 40, File_Close (OsFile 9 ''unix'')])
   \<and> Get (linux_amd64 (OsFile 9 ''unix'', None) (linux_UnixRights [5], None) None) 0 1 []
     = (Returned ([OsFile 5 ''''], None),
        [Conn_File 0, Make_bytes 24, Sys_Recvmsg 9 24, Os_NewFile 5 '''',
         File_Close (OsFile 9 ''unix'')])
   \<and> linux_ParseSocketControlMessage (linux_UnixRights [5] @ replicate 16 0) = ([], Some EINVAL)"
  by code_simp

section \<open>The order of the descriptors\<close>

text \<open>
  C4. \<open>Put\<close> with the files \<open>h1, ..., hn\<close> sends one message,
  \<open>UnixRights(h1.Fd(), ..., hn.Fd())\<close>, the descriptors in the order of the files. When the
  receiver's buffer decodes to one message carrying these descriptors as the kernel
  renumbered them (\<open>xl\<close>), \<open>Get\<close> returns \<open>n\<close> files in the same order: file \<open>i\<close> is made from
  the descriptor of \<open>hi\<close>.
\<close>

theorem Put_Get_keep_the_order:
  assumes "files \<noteq> []" and "File S via = (viaf, None)"
    and "\<not> num <s 1" and "File R via' = (viaf', None)"
    and "makeslice R (CmsgSpace R (num * 4)) = Some buf"
    and "Recvmsg R (Fd R viaf') buf = (buf', None)"
    and "ParseSocketControlMessage R buf' = ([m], None)"
    and "ParseUnixRights R m = (map xl (map (Fd S) files), None)"
  shows "snd (Put S via files)
           = [Conn_File via, Sys_Sendmsg (Fd S viaf) (UnixRights S (map (Fd S) files)),
              File_Close viaf]
       \<and> fst (Get R via' num filenames)
           = Returned (map (\<lambda>(i, f). NewFile R (xl (Fd S f)) (filename_for filenames i))
                         (enumerate 0 files), None)
       \<and> length (map (\<lambda>(i, f). NewFile R (xl (Fd S f)) (filename_for filenames i))
                   (enumerate 0 files)) = length files"
proof (intro conjI)
  show "snd (Put S via files)
          = [Conn_File via, Sys_Sendmsg (Fd S viaf) (UnixRights S (map (Fd S) files)),
             File_Close viaf]"
    using assms(1,2) by (simp add: Put_def Let_def Put_fds_map)
next
  let ?acc = "([], [Make_bytes (CmsgSpace R (num * 4)),
                    Sys_Recvmsg (Fd R viaf') (length buf)])"
  have e: "enumerate 0 (map xl (map (Fd S) files))
             = map (\<lambda>(i, f). (i, xl (Fd S f))) (enumerate 0 files)"
    by (simp add: enumerate_eq_zip zip_map2 split_def)
  have "files_of R filenames (map xl (map (Fd S) files))
          = map (\<lambda>(i, f). NewFile R (xl (Fd S f)) (filename_for filenames i)) (enumerate 0 files)"
    unfolding files_of_def e by (simp add: split_def comp_def)
  then have "for_msgs R filenames [m] None ?acc
          = ((map (\<lambda>(i, f). NewFile R (xl (Fd S f)) (filename_for filenames i)) (enumerate 0 files),
              None),
             snd ?acc @ calls_of filenames (map xl (map (Fd S) files)))"
    using assms(8) by (simp add: range_fds_closed)
  from Get_received [OF assms(3-7) this]
  show "fst (Get R via' num filenames)
          = Returned (map (\<lambda>(i, f). NewFile R (xl (Fd S f)) (filename_for filenames i))
                        (enumerate 0 files), None)"
    by simp
next
  show "length (map (\<lambda>(i, f). NewFile R (xl (Fd S f)) (filename_for filenames i))
                  (enumerate 0 files)) = length files"
    by simp
qed

theorem Put_Get_keep_the_order_witness:
  "snd (Put (linux_amd64 (OsFile 9 ''unix'', None) ([], None) None) 0
          [OsFile 3 ''a'', OsFile 4 ''b'', OsFile 7 ''c''])
     = [Conn_File 0, Sys_Sendmsg 9 (linux_UnixRights [3, 4, 7]), File_Close (OsFile 9 ''unix'')]
   \<and> fst (Get (linux_amd64 (OsFile 8 ''unix'', None) (linux_UnixRights [13, 14, 17], None) None)
            1 3 [''x'', ''y''])
     = Returned ([OsFile 13 ''x'', OsFile 14 ''y'', OsFile 17 ''''], None)"
proof -
  let ?S = "linux_amd64 (OsFile 9 ''unix'', None) ([], None) None"
  let ?R = "linux_amd64 (OsFile 8 ''unix'', None) (linux_UnixRights [13, 14, 17], None) None"
  let ?files = "[OsFile 3 ''a'', OsFile 4 ''b'', OsFile 7 ''c'']"
  let ?xl = "\<lambda>fd :: goint. fd + 10"
  let ?m = "\<lparr>Header = \<lparr>Len = 28, Level = 1, Type = 1\<rparr>,
             Data = [13, 0, 0, 0, 14, 0, 0, 0, 17, 0, 0, 0]\<rparr>"
  have 1: "?files \<noteq> []"
    by simp
  have 2: "File ?S 0 = (OsFile 9 ''unix'', None)"
    by (simp add: linux_amd64_def)
  have 3: "\<not> (3 :: goint) <s 1"
    by (simp add: word_sless_alt)
  have 4: "File ?R 1 = (OsFile 8 ''unix'', None)"
    by (simp add: linux_amd64_def)
  have 5: "makeslice ?R (CmsgSpace ?R (3 * 4)) = Some (replicate 32 0)"
    by code_simp
  have 6: "Recvmsg ?R (Fd ?R (OsFile 8 ''unix'')) (replicate 32 0)
             = (linux_UnixRights [13, 14, 17], None)"
    by code_simp
  have 7: "ParseSocketControlMessage ?R (linux_UnixRights [13, 14, 17]) = ([?m], None)"
    by code_simp
  have 8: "ParseUnixRights ?R ?m = (map ?xl (map (Fd ?S) ?files), None)"
    by code_simp
  note t = Put_Get_keep_the_order [where filenames = "[''x'', ''y'']", OF 1 2 3 4 5 6 7 8]
  have "snd (Put ?S 0 ?files)
          = [Conn_File 0, Sys_Sendmsg (Fd ?S (OsFile 9 ''unix'')) (UnixRights ?S (map (Fd ?S) ?files)),
             File_Close (OsFile 9 ''unix'')]"
    using t by blast
  also have "\<dots> = [Conn_File 0, Sys_Sendmsg 9 (linux_UnixRights [3, 4, 7]),
                      File_Close (OsFile 9 ''unix'')]"
    by code_simp
  finally have put: "snd (Put ?S 0 ?files)
          = [Conn_File 0, Sys_Sendmsg 9 (linux_UnixRights [3, 4, 7]), File_Close (OsFile 9 ''unix'')]" .
  have "fst (Get ?R 1 3 [''x'', ''y''])
          = Returned (map (\<lambda>(i, f). NewFile ?R (?xl (Fd ?S f)) (filename_for [''x'', ''y''] i))
                        (enumerate 0 ?files), None)"
    using t by blast
  also have "\<dots> = Returned ([OsFile 13 ''x'', OsFile 14 ''y'', OsFile 17 ''''], None)"
    by code_simp
  finally have get: "fst (Get ?R 1 3 [''x'', ''y''])
          = Returned ([OsFile 13 ''x'', OsFile 14 ''y'', OsFile 17 ''''], None)" .
  from put get show ?thesis by blast
qed

section \<open>Further properties\<close>

text \<open>
  Names within one message. When the buffer decodes to a single rights message, descriptor
  number \<open>i\<close> gets \<open>filenames[i]\<close> if there is one and the empty name otherwise:
  \<open>Get(via, 2, ["first"])\<close> returns files named "first" and "".
\<close>

theorem Get_names_within_one_message:
  assumes "\<not> num <s 1" and "File S via = (viaf, None)"
    and "makeslice S (CmsgSpace S (num * 4)) = Some buf"
    and "Recvmsg S (Fd S viaf) buf = (buf', None)"
    and "ParseSocketControlMessage S buf' = ([m], None)"
    and "ParseUnixRights S m = (fds, None)"
  shows "fst (Get S via num filenames)
           = Returned (map (\<lambda>i. NewFile S (fds ! i) (filename_for filenames i)) [0 ..< length fds],
                       None)"
proof -
  let ?acc = "([], [Make_bytes (CmsgSpace S (num * 4)), Sys_Recvmsg (Fd S viaf) (length buf)])"
  have "files_of S filenames fds
          = map (\<lambda>i. NewFile S (fds ! i) (filename_for filenames i)) [0 ..< length fds]"
    by (rule nth_equalityI) (simp_all add: files_of_def nth_enumerate_eq)
  then have "for_msgs S filenames [m] None ?acc
          = ((map (\<lambda>i. NewFile S (fds ! i) (filename_for filenames i)) [0 ..< length fds], None),
             snd ?acc @ calls_of filenames fds)"
    using assms(6) by (simp add: range_fds_closed)
  from Get_received [OF assms(1-5) this] show ?thesis by simp
qed

theorem Get_names_within_one_message_witness:
  "fst (Get (linux_amd64 (OsFile 9 ''unix'', None) (linux_UnixRights [5, 6], None) None)
          0 2 [''first''])
     = Returned ([OsFile 5 ''first'', OsFile 6 ''''], None)"
proof -
  let ?S = "linux_amd64 (OsFile 9 ''unix'', None) (linux_UnixRights [5, 6], None) None"
  let ?m = "\<lparr>Header = \<lparr>Len = 24, Level = 1, Type = 1\<rparr>, Data = [5, 0, 0, 0, 6, 0, 0, 0]\<rparr>"
  have 1: "\<not> (2 :: goint) <s 1"
    by (simp add: word_sless_alt)
  have 2: "File ?S 0 = (OsFile 9 ''unix'', None)"
    by (simp add: linux_amd64_def)
  have 3: "makeslice ?S (CmsgSpace ?S (2 * 4)) = Some (replicate 24 0)"
    by code_simp
  have 4: "Recvmsg ?S (Fd ?S (OsFile 9 ''unix'')) (replicate 24 0) = (linux_UnixRights [5, 6], None)"
    by code_simp
  have 5: "ParseSocketControlMessage ?S (linux_UnixRights [5, 6]) = ([?m], None)"
    by code_simp
  have 6: "ParseUnixRights ?S ?m = ([5, 6], None)"
    by code_simp
  have "fst (Get ?S 0 2 [''first''])
          = Returned (map (\<lambda>i. NewFile ?S ([5, 6] ! i) (filename_for [''first''] i))
                        [0 ..< length [5, 6 :: goint]], None)"
    by (rule Get_names_within_one_message [OF 1 2 3 4 5 6])
  also have "\<dots> = Returned ([OsFile 5 ''first'', OsFile 6 ''''], None)"
    by code_simp
  finally show ?thesis .
qed

section \<open>The linux/amd64 encoding decodes to what was encoded\<close>

text \<open>
  What \<open>linux_UnixRights\<close> writes, \<open>linux_ParseSocketControlMessage\<close> reads back as one
  rights message and \<open>ExtractRights\<close> as the same descriptors, for descriptors that fit an
  \<open>int32\<close>. So what the theorem on the order of the descriptors assumes about the
  receiver's buffer holds on linux/amd64 whenever the buffer holds the sender's message.
\<close>

lemma le_int_le_bytes: "le_int (le_bytes k v) = v mod 256 ^ k"
proof (induction k arbitrary: v)
  case 0
  show ?case by simp
next
  case (Suc k)
  have "le_int (le_bytes (Suc k) v) = v mod 256 + 256 * (v div 256 mod 256 ^ k)"
    by (simp add: Suc uint_word_of_int)
  also have "\<dots> = v mod (256 * 256 ^ k)"
    by (simp add: zmod_zmult2_eq)
  finally show ?case by simp
qed

lemma int32_round_trip:
  fixes fd :: goint
  assumes "- (2 ^ 31) \<le> sint fd" and "sint fd < 2 ^ 31"
  shows "scast (word_of_int (le_int (le_bytes 4 (sint fd))) :: 32 word) = fd"
proof -
  have "(word_of_int (le_int (le_bytes 4 (sint fd))) :: 32 word) = word_of_int (sint fd)"
    by (simp add: le_int_le_bytes word_of_int_eq_iff take_bit_eq_mod del: of_int_sint)
  then have "(word_of_int (le_int (le_bytes 4 (sint fd))) :: 32 word) = scast fd"
    by (simp only: scast_eq)
  moreover have "sint (scast fd :: 32 word) = sint fd"
    using assms by (simp only: signed_scast_eq) (simp add: signed_take_bit_int_eq_self)
  moreover have "sint (scast (scast fd :: 32 word) :: goint) = sint (scast fd :: 32 word)"
    by (rule sint_up_scast) (simp add: is_up)
  ultimately have "sint (scast (word_of_int (le_int (le_bytes 4 (sint fd))) :: 32 word) :: goint)
      = sint fd"
    by (simp only:)
  then show ?thesis
    by (rule signed_word_eqI)
qed

lemma le_bytes_4: "le_bytes 4 v = [word_of_int v, word_of_int (v div 256),
    word_of_int (v div 256 div 256), word_of_int (v div 256 div 256 div 256)]"
  by (simp add: numeral_eq_Suc)

lemma int32s_encoded:
  "\<forall>fd \<in> set fds. - (2 ^ 31) \<le> sint fd \<and> sint fd < 2 ^ 31 \<Longrightarrow>
   int32s (concat (map (\<lambda>fd :: goint. le_bytes 4 (sint fd)) fds)) = Some fds"
proof (induction fds)
  case Nil
  show ?case by simp
next
  case (Cons fd fds)
  have "int32s (le_bytes 4 (sint fd) @ rest)
         = map_option (\<lambda>fds. scast (word_of_int (le_int (le_bytes 4 (sint fd))) :: 32 word) # fds)
             (int32s rest)" for rest
    by (simp add: le_bytes_4)
  then show ?case using Cons by (simp add: int32_round_trip del: le_int.simps)
qed

lemma cmsgAlignOf_ge: "salen \<le> cmsgAlignOf salen"
  unfolding cmsgAlignOf_def by presburger

lemma cmsgAlignOf_header: "cmsgAlignOf (16 + salen) = 16 + cmsgAlignOf salen"
  unfolding cmsgAlignOf_def by presburger

lemma linux_rights_round_trip:
  assumes "\<forall>fd \<in> set fds. - (2 ^ 31) \<le> sint fd \<and> sint fd < 2 ^ 31"
    and "length fds < 2 ^ 32"
  shows "linux_ParseSocketControlMessage (linux_UnixRights fds)
           = ([\<lparr>Header = \<lparr>Len = word_of_int (16 + 4 * int (length fds)),
                           Level = SOL_SOCKET, Type = SCM_RIGHTS\<rparr>,
                 Data = concat (map (\<lambda>fd. le_bytes 4 (sint fd)) fds)\<rparr>], None)
       \<and> ExtractRights \<lparr>Header = \<lparr>Len = word_of_int (16 + 4 * int (length fds)),
                                  Level = SOL_SOCKET, Type = SCM_RIGHTS\<rparr>,
                        Data = concat (map (\<lambda>fd. le_bytes 4 (sint fd)) fds)\<rparr>
           = (fds, None)"
proof
  let ?n = "4 * int (length fds)"
  let ?D = "concat (map (\<lambda>fd :: goint. le_bytes 4 (sint fd)) fds)"
  let ?h = "\<lparr>Len = word_of_int (16 + ?n) :: 64 word, Level = SOL_SOCKET, Type = SCM_RIGHTS\<rparr>"
  let ?b = "linux_UnixRights fds"
  have small: "16 + ?n < 2 ^ 64"
    using assms(2) by simp
  have b: "?b = le_bytes 8 (16 + ?n) @ le_bytes 4 1 @ le_bytes 4 1 @ ?D
                 @ replicate (nat (cmsgAlignOf ?n - ?n)) 0"
    by (simp add: linux_UnixRights_def Let_def CmsgLen_def cmsgAlignOf_def SOL_SOCKET_def
          SCM_RIGHTS_def)
  have len: "int (length ?b) = 16 + cmsgAlignOf ?n"
    using cmsgAlignOf_ge [of ?n] by (simp add: b length_int32_bytes)
  have uint_len: "uint (word_of_int (16 + ?n) :: 64 word) = 16 + ?n"
    unfolding uint_word_of_int using small by simp
  have h: "socketControlMessageHeaderAndData (drop 0 ?b) = Some (?h, ?D)"
  proof -
    have "take 8 ?b = le_bytes 8 (16 + ?n)"
      and "take 4 (drop 8 ?b) = le_bytes 4 1"
      and "take 4 (drop 12 ?b) = le_bytes 4 1"
      and "drop 16 ?b = ?D @ replicate (nat (cmsgAlignOf ?n - ?n)) 0"
      by (simp_all add: b)
    moreover have "(word_of_int (le_int (le_bytes 8 (16 + ?n))) :: 64 word) = word_of_int (16 + ?n)"
      using small by (simp add: le_int_le_bytes del: le_bytes.simps)
    moreover have "(word_of_int (le_int (le_bytes 4 1)) :: 32 word) = 1"
      by (simp add: le_int_le_bytes del: le_bytes.simps)
    moreover have "16 + ?n \<le> int (length ?b)"
      using len cmsgAlignOf_ge [of ?n] by simp
    moreover have "take (unat (word_of_int (16 + ?n) :: 64 word) - 16)
                     (?D @ replicate (nat (cmsgAlignOf ?n - ?n)) 0) = ?D"
      using uint_len by (simp add: unat_eq_nat_uint length_int32_bytes nat_add_distrib)
    ultimately show ?thesis
      using uint_len
      by (simp add: socketControlMessageHeaderAndData_def Let_def SOL_SOCKET_def SCM_RIGHTS_def
            del: le_bytes.simps le_int.simps)
  qed
  have step: "nat (cmsgAlignOf (uint (Len ?h))) = length ?b"
  proof -
    have "uint (Len ?h) = 16 + ?n"
      by (simp only: Cmsghdr.select_convs uint_len)
    then have "cmsgAlignOf (uint (Len ?h)) = int (length ?b)"
      by (simp only: cmsgAlignOf_header len)
    then show ?thesis
      by (simp only: nat_int)
  qed
  have "parse_from ?b 0 [] = parse_from ?b (length ?b) [\<lparr>Header = ?h, Data = ?D\<rparr>]"
    using h len cmsgAlignOf_ge [of ?n] step
    by (subst parse_from.simps) (simp add: CmsgLen_def cmsgAlignOf_def del: parse_from.simps)
  also have "\<dots> = ([\<lparr>Header = ?h, Data = ?D\<rparr>], None)"
    by (subst parse_from.simps) (simp add: CmsgLen_def cmsgAlignOf_def del: parse_from.simps)
  finally show "linux_ParseSocketControlMessage ?b = ([\<lparr>Header = ?h, Data = ?D\<rparr>], None)"
    by (simp add: linux_ParseSocketControlMessage_def)
  show "ExtractRights \<lparr>Header = ?h, Data = ?D\<rparr> = (fds, None)"
    using assms(1) by (simp add: ExtractRights_def int32s_encoded)
qed

end
